theory Spec2Isabelle
  imports Complex_Main
begin

section \<open>Listings synchronisation: server (server.js) and client (script.js)\<close>

subsection \<open>JavaScript values and listings\<close>

text \<open>
  Event payloads arrive as JSON, so a listing's \<^verbatim>\<open>id\<close> field is any JSON scalar or is
  missing (\<^verbatim>\<open>undefined\<close>). Numbers are integers here: JSON carries neither NaN nor
  infinities, so \<^verbatim>\<open>===\<close> and the \<^verbatim>\<open>Set.has\<close> comparison agree with HOL equality.
\<close>

datatype jsval = JUndefined | JNull | JBool bool | JNum int | JStr string

text \<open>JavaScript truthiness, as tested by \<^verbatim>\<open>listing.id\<close> in a condition.\<close>

fun truthy :: "jsval \<Rightarrow> bool" where
  "truthy JUndefined = False"
| "truthy JNull = False"
| "truthy (JBool b) = b"
| "truthy (JNum n) = (n \<noteq> 0)"
| "truthy (JStr s) = (s \<noteq> [])"

text \<open>
  A listing object: its \<^verbatim>\<open>id\<close> field (\<open>JUndefined\<close> when the object has none) and all
  its other fields, which the synchronisation code never reads, as one opaque value.
  A payload that should be a listing is \<open>Some l\<close> for an object and \<open>None\<close> for
  \<^verbatim>\<open>null\<close> or \<^verbatim>\<open>undefined\<close>.
\<close>

record listing =
  listing_id :: jsval
  other_fields :: string

text \<open>\<^verbatim>\<open>Array.prototype.findIndex\<close>; the result -1 is \<open>None\<close>.\<close>

fun findIndex :: "('a \<Rightarrow> bool) \<Rightarrow> 'a list \<Rightarrow> nat option" where
  "findIndex p [] = None"
| "findIndex p (x # xs) = (if p x then Some 0 else map_option Suc (findIndex p xs))"

text \<open>The module-level array \<^verbatim>\<open>listings\<close>, which both programs have.\<close>

record replica =
  listings :: "listing list"

subsection \<open>Server state, messages and effects\<close>

text \<open>
  The message of an \<^verbatim>\<open>update-listings\<close> event. Its \<^verbatim>\<open>timestamp\<close> field is written by
  the server and read by nobody, and is left out.
\<close>

record update_msg =
  action :: string
  listing :: "listing option"
  listingId :: jsval

datatype event =
    UsersCount nat
  | SyncAllListings "listing list"
  | UpdateListings update_msg

datatype persist_op =
    WriteFile "listing list"
  | FirestoreSet listing
  | FirestoreDelete jsval

text \<open>
  What a handler does to the outside: \<open>Broadcast\<close> is \<^verbatim>\<open>io.emit\<close>, \<open>Unicast\<close> is
  \<^verbatim>\<open>socket.emit\<close> on the channel with the given socket id, and \<open>Persist op ok\<close> is a
  call of the persistence backend together with its outcome (\<open>ok = False\<close>: the call
  threw or its promise rejected).
\<close>

datatype effect =
    Broadcast event
  | Unicast string event
  | Persist persist_op bool

datatype error = TypeError

record server = replica +
  useCloudBackend :: bool
  db :: bool
  clients :: "string set"

text \<open>The channels an effect reaches.\<close>

fun recipients :: "'a server_scheme \<Rightarrow> effect \<Rightarrow> string set" where
  "recipients s (Broadcast ev) = clients s"
| "recipients s (Unicast sid ev) = {sid}"
| "recipients s (Persist op ok) = {}"

subsection \<open>Persistence (server.js, saveListing and deleteListing)\<close>

text \<open>
  \<open>ok\<close> is the outcome of the backend call. With the local file the array is updated
  first and \<^verbatim>\<open>saveListingsLocal\<close> catches its own failure; with the cloud backend the
  array is updated after the awaited write, so a rejected write skips the update.
  \<open>insert_or_replace\<close> is the three lines that both branches of \<^verbatim>\<open>saveListing\<close> repeat:
  \<^verbatim>\<open>findIndex\<close> by id, then \<^verbatim>\<open>unshift\<close> or \<^verbatim>\<open>listings[idx] = listing\<close>.
\<close>

definition insert_or_replace :: "listing \<Rightarrow> listing list \<Rightarrow> listing list" where
  "insert_or_replace l ls =
     (case findIndex (\<lambda>x. listing_id x = listing_id l) ls of
        None \<Rightarrow> l # ls
      | Some idx \<Rightarrow> ls[idx := l])"

definition saveListing :: "bool \<Rightarrow> listing \<Rightarrow> server \<Rightarrow> server \<times> effect list" where
  "saveListing ok l s =
     (if \<not> useCloudBackend s \<or> \<not> db s then
        (let ls = insert_or_replace l (listings s)
         in (s\<lparr>listings := ls\<rparr>, [Persist (WriteFile ls) ok]))
      else if ok then
        (s\<lparr>listings := insert_or_replace l (listings s)\<rparr>, [Persist (FirestoreSet l) True])
      else (s, [Persist (FirestoreSet l) False]))"

definition deleteListing :: "bool \<Rightarrow> jsval \<Rightarrow> server \<Rightarrow> server \<times> effect list" where
  "deleteListing ok listingId' s =
     (if \<not> useCloudBackend s \<or> \<not> db s then
        (let ls = filter (\<lambda>l. listing_id l \<noteq> listingId') (listings s)
         in (s\<lparr>listings := ls\<rparr>, [Persist (WriteFile ls) ok]))
      else if ok then
        (s\<lparr>listings := filter (\<lambda>l. listing_id l \<noteq> listingId') (listings s)\<rparr>,
         [Persist (FirestoreDelete listingId') True])
      else (s, [Persist (FirestoreDelete listingId') False]))"

subsection \<open>Socket handlers of the server\<close>

text \<open>
  Each handler runs to its end before the next one starts. A handler that throws has, in
  this program, done nothing yet (each throw is in the handler's first statement), so the
  result \<open>Inl TypeError\<close> stands for: state unchanged, no effect.
\<close>

definition on_connection :: "string \<Rightarrow> server \<Rightarrow> server \<times> effect list" where
  "on_connection sid s =
     (let s1 = s\<lparr>clients := insert sid (clients s)\<rparr>
      in (s1, [Broadcast (UsersCount (card (clients s1))),
               Unicast sid (SyncAllListings (listings s1))]))"

definition on_listing_added ::
  "bool \<Rightarrow> listing option \<Rightarrow> server \<Rightarrow> error + server \<times> effect list" where
  "on_listing_added ok payload s =
     (case payload of
        None \<Rightarrow> Inl TypeError
      | Some l \<Rightarrow>
          (let (s1, fx) = (if truthy (listing_id l) then saveListing ok l s else (s, []))
           in Inr (s1, fx @ [Broadcast (UpdateListings
                 \<lparr>action = ''added'', listing = Some l, listingId = JUndefined\<rparr>)])))"

definition on_listing_deleted :: "bool \<Rightarrow> jsval \<Rightarrow> server \<Rightarrow> server \<times> effect list" where
  "on_listing_deleted ok listingId' s =
     (let (s1, fx) = deleteListing ok listingId' s
      in (s1, fx @ [Broadcast (UpdateListings
            \<lparr>action = ''deleted'', listing = None, listingId = listingId'\<rparr>)]))"

definition on_listing_updated ::
  "bool \<Rightarrow> listing option \<Rightarrow> server \<Rightarrow> error + server \<times> effect list" where
  "on_listing_updated ok payload s =
     (case payload of
        None \<Rightarrow> Inl TypeError
      | Some l \<Rightarrow>
          (let (s1, fx) = saveListing ok l s
           in Inr (s1, fx @ [Broadcast (UpdateListings
                 \<lparr>action = ''updated'', listing = Some l, listingId = JUndefined\<rparr>)])))"

text \<open>
  The payload of \<^verbatim>\<open>sync-listings\<close>: an array whose elements are listing objects or
  \<^verbatim>\<open>null\<close>, or something that is not an array.
\<close>

datatype sync_payload = NotAnArray | Array "listing option list"

text \<open>
  The loop \<^verbatim>\<open>for (const listing of toAdd) await saveListing(listing)\<close>; \<open>oks n\<close> is the
  outcome of the backend call of the \<open>n\<close>-th iteration.
\<close>

fun saveAll :: "(nat \<Rightarrow> bool) \<Rightarrow> nat \<Rightarrow> listing list \<Rightarrow> server \<Rightarrow> server \<times> effect list" where
  "saveAll oks n [] s = (s, [])"
| "saveAll oks n (l # ls) s =
     (let (s1, fx1) = saveListing (oks n) l s;
          (s2, fx2) = saveAll oks (Suc n) ls s1
      in (s2, fx1 @ fx2))"

definition toAdd :: "listing option list \<Rightarrow> listing list \<Rightarrow> listing list" where
  "toAdd clientListings ls =
     (let existingIds = set (map listing_id ls)
      in [l. Some l \<leftarrow> clientListings, truthy (listing_id l) \<and> listing_id l \<notin> existingIds])"

definition on_sync_listings ::
  "(nat \<Rightarrow> bool) \<Rightarrow> sync_payload \<Rightarrow> server \<Rightarrow> server \<times> effect list" where
  "on_sync_listings oks payload s =
     (let (s1, fx) =
        (case payload of
           NotAnArray \<Rightarrow> (s, [])
         | Array clientListings \<Rightarrow>
             if clientListings \<noteq> [] then saveAll oks 0 (toAdd clientListings (listings s)) s
             else (s, []))
      in (s1, fx @ [Broadcast (SyncAllListings (listings s1))]))"

definition on_disconnect :: "string \<Rightarrow> server \<Rightarrow> server \<times> effect list" where
  "on_disconnect sid s =
     (let s1 = s\<lparr>clients := clients s - {sid}\<rparr>
      in (s1, [Broadcast (UsersCount (card (clients s1)))]))"

text \<open>
  A request as the server sees it, with the outcomes of the backend calls it will make,
  and the server's reaction. After a throw the state is as before and nothing was emitted.
\<close>

datatype request =
    Connection string
  | ListingAdded bool "listing option"
  | ListingDeleted bool jsval
  | ListingUpdated bool "listing option"
  | SyncListings "nat \<Rightarrow> bool" sync_payload
  | Disconnect string

fun server_step :: "request \<Rightarrow> server \<Rightarrow> server \<times> effect list" where
  "server_step (Connection sid) s = on_connection sid s"
| "server_step (ListingAdded ok payload) s =
     (case on_listing_added ok payload s of Inl e \<Rightarrow> (s, []) | Inr r \<Rightarrow> r)"
| "server_step (ListingDeleted ok listingId') s = on_listing_deleted ok listingId' s"
| "server_step (ListingUpdated ok payload) s =
     (case on_listing_updated ok payload s of Inl e \<Rightarrow> (s, []) | Inr r \<Rightarrow> r)"
| "server_step (SyncListings oks payload) s = on_sync_listings oks payload s"
| "server_step (Disconnect sid) s = on_disconnect sid s"

fun server_run :: "request list \<Rightarrow> server \<Rightarrow> server \<times> effect list" where
  "server_run [] s = (s, [])"
| "server_run (rq # rqs) s =
     (let (s1, fx1) = server_step rq s;
          (s2, fx2) = server_run rqs s1
      in (s2, fx1 @ fx2))"

subsection \<open>Client: the offline queue (script.js)\<close>

text \<open>What the client hands to \<^verbatim>\<open>socket.emit\<close>, or keeps as the data of a queued update.\<close>

datatype arg = ArgListing listing | ArgId jsval | ArgListings "listing list"

text \<open>
  A queued update, \<^verbatim>\<open>{id, action, data, timestamp}\<close>. Its \<^verbatim>\<open>id\<close> is
  \<^verbatim>\<open>Date.now() + Math.random()\<close>, which the code stores and never reads.
\<close>

record update =
  update_id :: real
  update_action :: string
  update_data :: arg
  update_timestamp :: string

text \<open>A call of \<^verbatim>\<open>socket.emit(event, arg)\<close> that returned (\<open>Sent\<close>) or threw (\<open>Failed\<close>).\<close>

datatype attempt = Sent string arg | Failed string arg

text \<open>
  The client's variables. \<^verbatim>\<open>updateQueue.indexOf(update)\<close> compares objects by identity,
  so each element of the queue is paired with the reference of its object, and
  \<open>next_ref\<close> is the next unused reference. \<open>ls_updateQueue\<close> and \<open>ls_listings\<close> are the
  two keys of \<^verbatim>\<open>localStorage\<close> (\<open>None\<close>: the key is absent); they hold JSON, so values
  without identity.
\<close>

record client = replica +
  isConnected :: bool
  updateQueue :: "(nat \<times> update) list"
  isSyncing :: bool
  next_ref :: nat
  ls_updateQueue :: "update list option"
  ls_listings :: "listing list option"

definition loadUpdateQueue :: "client \<Rightarrow> client" where
  "loadUpdateQueue c =
     (case ls_updateQueue c of
        None \<Rightarrow> c\<lparr>updateQueue := []\<rparr>
      | Some us \<Rightarrow> c\<lparr>updateQueue := zip [next_ref c ..< next_ref c + length us] us,
                     next_ref := next_ref c + length us\<rparr>)"

definition saveUpdateQueue :: "client \<Rightarrow> client" where
  "saveUpdateQueue c = c\<lparr>ls_updateQueue := Some (map snd (updateQueue c))\<rparr>"

text \<open>\<open>uid\<close> and \<open>ts\<close> are the values the clock and the random generator give.\<close>

definition queueUpdate :: "real \<Rightarrow> string \<Rightarrow> string \<Rightarrow> arg \<Rightarrow> client \<Rightarrow> client" where
  "queueUpdate uid ts act dat c =
     (let upd = \<lparr>update_id = uid, update_action = act, update_data = dat,
                 update_timestamp = ts\<rparr>
      in saveUpdateQueue (c\<lparr>updateQueue := updateQueue c @ [(next_ref c, upd)],
                            next_ref := Suc (next_ref c)\<rparr>))"

text \<open>
  The \<^verbatim>\<open>if\<close>/\<^verbatim>\<open>else if\<close> in the loop body: which emit the update leads to, if any;
  \<open>ok\<close> tells whether that emit returns.
\<close>

definition emit_update :: "bool \<Rightarrow> update \<Rightarrow> attempt option" where
  "emit_update ok u =
     (if update_action u = ''listing-added'' \<or> update_action u = ''listing-updated'' then
        Some (if ok then Sent (update_action u) (update_data u)
              else Failed (update_action u) (update_data u))
      else if update_action u = ''listing-deleted'' then
        Some (if ok then Sent (update_action u) (update_data u)
              else Failed (update_action u) (update_data u))
      else None)"

text \<open>\<^verbatim>\<open>updateQueue.splice(idx, 1)\<close> under \<^verbatim>\<open>if (idx !== -1)\<close>.\<close>

definition splice_at :: "nat option \<Rightarrow> 'a list \<Rightarrow> 'a list" where
  "splice_at idx q = (case idx of None \<Rightarrow> q | Some i \<Rightarrow> take i q @ drop (Suc i) q)"

text \<open>
  The loop over the snapshot \<^verbatim>\<open>toProcess\<close>; \<open>oks n\<close> is the outcome of the emit of the
  \<open>n\<close>-th iteration. A throwing emit jumps to the \<^verbatim>\<open>catch\<close>, past the removal.
\<close>

fun process_loop ::
  "(nat \<Rightarrow> bool) \<Rightarrow> nat \<Rightarrow> (nat \<times> update) list \<Rightarrow> client \<Rightarrow> client \<times> attempt list" where
  "process_loop oks n [] c = (c, [])"
| "process_loop oks n (e # toProcess) c =
     (let idx = findIndex (\<lambda>x. fst x = fst e) (updateQueue c)
      in case emit_update (oks n) (snd e) of
           Some (Failed ev a) \<Rightarrow>
             (let (c2, tr) = process_loop oks (Suc n) toProcess c
              in (c2, Failed ev a # tr))
         | Some (Sent ev a) \<Rightarrow>
             (let (c2, tr) = process_loop oks (Suc n) toProcess
                               (c\<lparr>updateQueue := splice_at idx (updateQueue c)\<rparr>)
              in (c2, Sent ev a # tr))
         | None \<Rightarrow>
             process_loop oks (Suc n) toProcess
               (c\<lparr>updateQueue := splice_at idx (updateQueue c)\<rparr>))"

text \<open>The closing notification goes to the page only and is left out.\<close>

definition processUpdateQueue :: "(nat \<Rightarrow> bool) \<Rightarrow> client \<Rightarrow> client \<times> attempt list" where
  "processUpdateQueue oks c =
     (if \<not> isConnected c \<or> updateQueue c = [] \<or> isSyncing c then (c, [])
      else
        (let c1 = c\<lparr>isSyncing := True\<rparr>;
             toProcess = updateQueue c1;
             (c2, tr) = process_loop oks 0 toProcess c1
         in ((saveUpdateQueue c2)\<lparr>isSyncing := False\<rparr>, tr)))"

subsection \<open>Client: socket handlers (script.js, initializeWebSocket)\<close>

text \<open>
  The emit of \<^verbatim>\<open>sync-listings\<close> stands outside any \<^verbatim>\<open>try\<close>; it is taken to return.
\<close>

definition client_on_connect :: "(nat \<Rightarrow> bool) \<Rightarrow> client \<Rightarrow> client \<times> attempt list" where
  "client_on_connect oks c =
     (let c1 = c\<lparr>isConnected := True\<rparr>;
          (c2, tr) = processUpdateQueue oks c1
      in (c2, Sent ''sync-listings'' (ArgListings (listings c1)) # tr))"

definition client_on_disconnect :: "client \<Rightarrow> client" where
  "client_on_disconnect c = c\<lparr>isConnected := False\<rparr>"

definition client_on_reconnect :: "(nat \<Rightarrow> bool) \<Rightarrow> client \<Rightarrow> client \<times> attempt list" where
  "client_on_reconnect oks c = processUpdateQueue oks (c\<lparr>isConnected := True\<rparr>)"

text \<open>
  The handler of \<^verbatim>\<open>update-listings\<close>. A message without a listing makes
  \<^verbatim>\<open>data.listing.id\<close> throw wherever the callback of \<^verbatim>\<open>find\<close> or \<^verbatim>\<open>findIndex\<close> runs
  (on an empty array it does not run: then \<^verbatim>\<open>added\<close> throws later, at
  \<^verbatim>\<open>data.listing.title\<close>, and \<^verbatim>\<open>updated\<close> does nothing). The state a throwing handler
  leaves behind is not tracked.
\<close>

definition client_on_update_listings :: "update_msg \<Rightarrow> client \<Rightarrow> error + client" where
  "client_on_update_listings data c =
     (if action data = ''added'' then
        (case listing data of
           None \<Rightarrow> Inl TypeError
         | Some l \<Rightarrow>
             if find (\<lambda>x. listing_id x = listing_id l) (listings c) = None
             then Inr (c\<lparr>listings := l # listings c\<rparr>)
             else Inr c)
      else if action data = ''deleted'' then
        Inr (c\<lparr>listings := filter (\<lambda>l. listing_id l \<noteq> listingId data) (listings c)\<rparr>)
      else if action data = ''updated'' then
        (case listing data of
           None \<Rightarrow> if listings c = [] then Inr c else Inl TypeError
         | Some l \<Rightarrow>
             (case findIndex (\<lambda>x. listing_id x = listing_id l) (listings c) of
                None \<Rightarrow> Inr c
              | Some idx \<Rightarrow> Inr (c\<lparr>listings := (listings c)[idx := l]\<rparr>)))
      else Inr c)"

definition client_on_sync_all_listings :: "listing list \<Rightarrow> client \<Rightarrow> client" where
  "client_on_sync_all_listings syncedListings c = c\<lparr>listings := syncedListings\<rparr>"

text \<open>What the client does with an event of the server; \<^verbatim>\<open>users-count\<close> only changes the page.\<close>

fun client_receive :: "event \<Rightarrow> client \<Rightarrow> error + client" where
  "client_receive (UsersCount n) c = Inr c"
| "client_receive (SyncAllListings ls) c = Inr (client_on_sync_all_listings ls c)"
| "client_receive (UpdateListings data) c = client_on_update_listings data c"

text \<open>
  A page load after a crash: every variable starts afresh, \<^verbatim>\<open>loadListings\<close> reads the
  stored listings (\<open>defaults\<close> when there are none) and \<^verbatim>\<open>initializeWebSocket\<close> calls
  \<^verbatim>\<open>loadUpdateQueue\<close>. Only \<^verbatim>\<open>localStorage\<close> survives.
\<close>

definition page_load :: "listing list \<Rightarrow> client \<Rightarrow> client" where
  "page_load defaults c =
     loadUpdateQueue
       \<lparr>listings = (case ls_listings c of None \<Rightarrow> defaults | Some ls \<Rightarrow> ls),
        isConnected = False, updateQueue = [], isSyncing = False, next_ref = 0,
        ls_updateQueue = ls_updateQueue c, ls_listings = ls_listings c\<rparr>"

subsection \<open>Notions used by the properties\<close>

text \<open>At most one listing per id.\<close>

definition unique_ids :: "listing list \<Rightarrow> bool" where
  "unique_ids ls = distinct (map listing_id ls)"

fun is_sync_all :: "effect \<Rightarrow> bool" where
  "is_sync_all (Broadcast (SyncAllListings ls)) = True"
| "is_sync_all (Unicast sid (SyncAllListings ls)) = True"
| "is_sync_all e = False"

text \<open>The values of the \<^verbatim>\<open>users-count\<close> broadcasts among some effects, in order.\<close>

fun users_counts :: "effect list \<Rightarrow> nat list" where
  "users_counts [] = []"
| "users_counts (Broadcast (UsersCount n) # fx) = n # users_counts fx"
| "users_counts (e # fx) = users_counts fx"

text \<open>
  Channels open after a sequence of connections and disconnections, starting from the
  open set \<open>opn\<close>; and the sequences that can happen: a channel that connects is not open
  yet, one that disconnects is open.
\<close>

datatype presence_event = Connects string | Disconnects string

fun presence_request :: "presence_event \<Rightarrow> request" where
  "presence_request (Connects sid) = Connection sid"
| "presence_request (Disconnects sid) = Disconnect sid"

fun possible :: "string set \<Rightarrow> presence_event list \<Rightarrow> bool" where
  "possible opn [] = True"
| "possible opn (Connects sid # evs) = (sid \<notin> opn \<and> possible (insert sid opn) evs)"
| "possible opn (Disconnects sid # evs) = (sid \<in> opn \<and> possible (opn - {sid}) evs)"

fun connects :: "presence_event list \<Rightarrow> nat" where
  "connects [] = 0"
| "connects (Connects sid # evs) = Suc (connects evs)"
| "connects (Disconnects sid # evs) = connects evs"

fun disconnects :: "presence_event list \<Rightarrow> nat" where
  "disconnects [] = 0"
| "disconnects (Connects sid # evs) = disconnects evs"
| "disconnects (Disconnects sid # evs) = Suc (disconnects evs)"

fun open_after :: "string set \<Rightarrow> presence_event list \<Rightarrow> string set" where
  "open_after opn [] = opn"
| "open_after opn (Connects sid # evs) = open_after (insert sid opn) evs"
| "open_after opn (Disconnects sid # evs) = open_after (opn - {sid}) evs"



text \<open>
  Enqueueing a sequence of intents, each given by the \<^verbatim>\<open>id\<close> and \<^verbatim>\<open>timestamp\<close> it gets
  and by its action and data; and the queued update that \<^verbatim>\<open>queueUpdate\<close> builds.
\<close>

fun enqueue_all :: "(real \<times> string \<times> string \<times> arg) list \<Rightarrow> client \<Rightarrow> client" where
  "enqueue_all [] c = c"
| "enqueue_all ((uid, ts, act, dat) # rest) c = enqueue_all rest (queueUpdate uid ts act dat c)"

definition intent_update :: "real \<times> string \<times> string \<times> arg \<Rightarrow> update" where
  "intent_update i = (case i of (uid, ts, act, dat) \<Rightarrow>
     \<lparr>update_id = uid, update_action = act, update_data = dat, update_timestamp = ts\<rparr>)"

definition known_action :: "string \<Rightarrow> bool" where
  "known_action act =
     (act = ''listing-added'' \<or> act = ''listing-updated'' \<or> act = ''listing-deleted'')"

text \<open>
  One delivery attempt per update, in order, the \<open>n\<close>-th with outcome \<open>oks n\<close>; and the
  updates whose attempt failed.
\<close>

fun one_attempt_each :: "(nat \<Rightarrow> bool) \<Rightarrow> nat \<Rightarrow> update list \<Rightarrow> attempt list" where
  "one_attempt_each oks n [] = []"
| "one_attempt_each oks n (u # us) =
     (if oks n then Sent (update_action u) (update_data u)
      else Failed (update_action u) (update_data u)) # one_attempt_each oks (Suc n) us"

fun undelivered :: "(nat \<Rightarrow> bool) \<Rightarrow> nat \<Rightarrow> 'a list \<Rightarrow> 'a list" where
  "undelivered oks n [] = []"
| "undelivered oks n (u # us) =
     (if oks n then undelivered oks (Suc n) us else u # undelivered oks (Suc n) us)"

text \<open>What \<^verbatim>\<open>loadUpdateQueue\<close> would read from \<^verbatim>\<open>localStorage\<close>.\<close>

definition stored_updates :: "client \<Rightarrow> update list" where
  "stored_updates c = (case ls_updateQueue c of None \<Rightarrow> [] | Some us \<Rightarrow> us)"

subsection \<open>Example values\<close>

text \<open>
  The listing of the specification's scenario, a second one, one without an id and one
  whose id is the empty string.
\<close>

definition x1 :: listing where
  "x1 = \<lparr>listing_id = JStr ''x1'', other_fields = ''Foo''\<rparr>"

definition x2 :: listing where
  "x2 = \<lparr>listing_id = JStr ''x2'', other_fields = ''Bar''\<rparr>"



definition local_server :: "listing list \<Rightarrow> server" where
  "local_server ls = \<lparr>listings = ls, useCloudBackend = False, db = False, clients = {}\<rparr>"

definition cloud_server :: "listing list \<Rightarrow> server" where
  "cloud_server ls = \<lparr>listings = ls, useCloudBackend = True, db = True, clients = {}\<rparr>"

text \<open>A client just loaded, with nothing stored.\<close>

definition fresh_client :: "listing list \<Rightarrow> client" where
  "fresh_client ls = \<lparr>listings = ls, isConnected = False, updateQueue = [], isSyncing = False,
     next_ref = 0, ls_updateQueue = None, ls_listings = None\<rparr>"

text \<open>A client that queued the creation of \<open>x1\<close> while offline.\<close>

definition offline_client :: client where
  "offline_client = queueUpdate 1 ''2024-01-01T00:00:00.000Z'' ''listing-added'' (ArgListing x1)
     (fresh_client [x1])"

text \<open>Every call returns; every call throws.\<close>

definition all_ok :: "nat \<Rightarrow> bool" where
  "all_ok n = True"

definition none_ok :: "nat \<Rightarrow> bool" where
  "none_ok n = False"

section \<open>Properties\<close>

subsection \<open>Auxiliary facts\<close>

lemma findIndex_None_iff: "findIndex p xs = None \<longleftrightarrow> (\<forall>x\<in>set xs. \<not> p x)"
  by (induction xs) auto

lemma findIndex_Some: "findIndex p xs = Some i \<Longrightarrow> i < length xs \<and> p (xs ! i)"
proof (induction xs arbitrary: i)
  case Nil
  then show ?case by simp
next
  case (Cons x xs)
  then show ?case by (auto split: if_splits)
qed

lemma insert_or_replace_ids:
  "map listing_id (insert_or_replace l ls) =
     (if listing_id l \<in> listing_id ` set ls then map listing_id ls
      else listing_id l # map listing_id ls)"
proof (cases "findIndex (\<lambda>x. listing_id x = listing_id l) ls")
  case None
  then have "listing_id l \<notin> listing_id ` set ls"
    by (auto simp: findIndex_None_iff)
  then show ?thesis
    using None by (simp add: insert_or_replace_def)
next
  case (Some i)
  from findIndex_Some [OF Some] have i: "i < length ls" "listing_id (ls ! i) = listing_id l"
    by auto
  then have "listing_id l \<in> listing_id ` set ls"
    by (metis imageI nth_mem)
  moreover have "map listing_id (ls[i := l]) = map listing_id ls"
    using i by (simp add: map_update list_update_same_conv)
  ultimately show ?thesis
    using Some by (simp add: insert_or_replace_def)
qed

lemma unique_ids_insert_or_replace:
  "unique_ids ls \<Longrightarrow> unique_ids (insert_or_replace l ls)"
  by (simp add: unique_ids_def insert_or_replace_ids)

lemma unique_ids_filter: "unique_ids ls \<Longrightarrow> unique_ids (filter p ls)"
  by (simp add: unique_ids_def distinct_map_filter)

lemma saveListing_listings:
  "listings (fst (saveListing ok l s)) =
     (if \<not> useCloudBackend s \<or> \<not> db s \<or> ok then insert_or_replace l (listings s)
      else listings s)"
  by (simp add: saveListing_def Let_def)

lemma saveListing_mode:
  "useCloudBackend (fst (saveListing ok l s)) = useCloudBackend s"
  "db (fst (saveListing ok l s)) = db s"
  "clients (fst (saveListing ok l s)) = clients s"
  by (simp_all add: saveListing_def Let_def)

lemma deleteListing_listings:
  "listings (fst (deleteListing ok x s)) =
     (if \<not> useCloudBackend s \<or> \<not> db s \<or> ok
      then filter (\<lambda>l. listing_id l \<noteq> x) (listings s) else listings s)"
  by (simp add: deleteListing_def Let_def)

lemma unique_ids_saveListing:
  "unique_ids (listings s) \<Longrightarrow> unique_ids (listings (fst (saveListing ok l s)))"
  by (simp add: saveListing_listings unique_ids_insert_or_replace)

lemma unique_ids_saveAll:
  "unique_ids (listings s) \<Longrightarrow> unique_ids (listings (fst (saveAll oks n ls s)))"
proof (induction ls arbitrary: n s)
  case Nil
  then show ?case by simp
next
  case (Cons l ls)
  have "unique_ids (listings (fst (saveListing (oks n) l s)))"
    using Cons.prems by (rule unique_ids_saveListing)
  from Cons.IH [OF this] show ?case
    by (simp add: split_beta Let_def)
qed

lemma filter_absent: "x \<notin> listing_id ` set ls \<Longrightarrow> filter (\<lambda>l. listing_id l \<noteq> x) ls = ls"
  by (induction ls) auto

lemma listing_added_without_id:
  "\<not> truthy (listing_id l) \<Longrightarrow>
   on_listing_added ok (Some l) s =
     Inr (s, [Broadcast (UpdateListings \<lparr>action = ''added'', listing = Some l, listingId = JUndefined\<rparr>)])"
  by (simp add: on_listing_added_def)

lemma find_None_iff': "find p xs = None \<longleftrightarrow> (\<forall>x\<in>set xs. \<not> p x)"
  by (induction xs) auto

lemma unique_ids_server_step:
  assumes "unique_ids (listings s)"
  shows "unique_ids (listings (fst (server_step rq s)))"
proof (cases rq)
  case (Connection sid)
  then show ?thesis using assms by (simp add: on_connection_def Let_def)
next
  case (ListingAdded ok payload)
  then show ?thesis using assms
    by (cases payload)
      (simp_all add: on_listing_added_def split_beta unique_ids_saveListing)
next
  case (ListingDeleted ok x)
  then show ?thesis using assms
    by (simp add: on_listing_deleted_def split_beta deleteListing_listings unique_ids_filter)
next
  case (ListingUpdated ok payload)
  then show ?thesis using assms
    by (cases payload)
      (simp_all add: on_listing_updated_def split_beta unique_ids_saveListing)
next
  case (SyncListings oks payload)
  then show ?thesis using assms
    by (cases payload)
      (simp_all add: on_sync_listings_def split_beta unique_ids_saveAll)
next
  case (Disconnect sid)
  then show ?thesis using assms by (simp add: on_disconnect_def Let_def)
qed

lemma unique_ids_server_run:
  "unique_ids (listings s) \<Longrightarrow> unique_ids (listings (fst (server_run rqs s)))"
proof (induction rqs arbitrary: s)
  case Nil
  then show ?case by simp
next
  case (Cons rq rqs)
  from Cons.IH [OF unique_ids_server_step [OF Cons.prems, of rq]]
  show ?case by (simp add: split_beta)
qed

lemma unique_ids_update:
  assumes "unique_ids ls" and "findIndex (\<lambda>x. listing_id x = listing_id l) ls = Some i"
  shows "unique_ids (ls[i := l])"
  using unique_ids_insert_or_replace [OF assms(1), of l] assms(2)
  by (simp add: insert_or_replace_def)

lemma unique_ids_client_update_listings:
  assumes "unique_ids (listings c)" and "client_on_update_listings data c = Inr c1"
  shows "unique_ids (listings c1)"
proof -
  consider (added) "action data = ''added''"
    | (deleted) "action data = ''deleted''"
    | (updated) "action data = ''updated''"
    | (other) "action data \<noteq> ''added''" "action data \<noteq> ''deleted''" "action data \<noteq> ''updated''"
    by blast
  then show ?thesis
  proof cases
    case added
    show ?thesis
    proof (cases "listing data")
      case None
      then show ?thesis using added assms by (simp add: client_on_update_listings_def)
    next
      case (Some l)
      show ?thesis
      proof (cases "find (\<lambda>x. listing_id x = listing_id l) (listings c) = None")
        case True
        then have "listing_id l \<notin> listing_id ` set (listings c)"
          by (auto simp: find_None_iff')
        moreover have "c1 = c\<lparr>listings := l # listings c\<rparr>"
          using added Some True assms(2) by (simp add: client_on_update_listings_def)
        ultimately show ?thesis using assms(1) by (simp add: unique_ids_def)
      next
        case False
        then have "c1 = c"
          using added Some assms(2) by (auto simp: client_on_update_listings_def)
        then show ?thesis using assms(1) by simp
      qed
    qed
  next
    case deleted
    then show ?thesis using assms
      by (auto simp: client_on_update_listings_def unique_ids_filter)
  next
    case updated
    then show ?thesis using assms
      by (auto simp: client_on_update_listings_def unique_ids_update
          split: option.splits if_splits)
  next
    case other
    then show ?thesis using assms
      by (auto simp: client_on_update_listings_def)
  qed
qed

lemma users_counts_append: "users_counts (a @ b) = users_counts a @ users_counts b"
  by (induction a rule: users_counts.induct) simp_all

lemma presence_step_counts:
  "users_counts (snd (server_step (presence_request ev) s))
     = [card (clients (fst (server_step (presence_request ev) s)))]"
  by (cases ev) (simp_all add: on_connection_def on_disconnect_def Let_def)

lemma presence_step_clients:
  "clients (fst (server_step (presence_request ev) s)) = open_after (clients s) [ev]"
  by (cases ev) (simp_all add: on_connection_def on_disconnect_def Let_def)

lemma presence_run_clients:
  "clients (fst (server_run (map presence_request evs) s)) = open_after (clients s) evs"
proof (induction evs arbitrary: s)
  case Nil
  then show ?case by simp
next
  case (Cons ev evs)
  show ?case
    using Cons.IH [of "fst (server_step (presence_request ev) s)"] presence_step_clients [of ev s]
    by (cases ev) (simp_all add: split_beta)
qed

lemma presence_run_last:
  "evs \<noteq> [] \<Longrightarrow>
   users_counts (snd (server_run (map presence_request evs) s)) \<noteq> [] \<and>
   last (users_counts (snd (server_run (map presence_request evs) s)))
     = card (clients (fst (server_run (map presence_request evs) s)))"
proof (induction evs arbitrary: s)
  case Nil
  then show ?case by simp
next
  case (Cons ev evs)
  let ?s1 = "fst (server_step (presence_request ev) s)"
  show ?case
  proof (cases "evs = []")
    case True
    then show ?thesis
      using presence_step_counts [of ev s] by (simp add: split_beta)
  next
    case False
    from Cons.IH [OF False, of ?s1] show ?thesis
      by (simp add: split_beta users_counts_append)
  qed
qed

lemma possible_card:
  "finite opn \<Longrightarrow> possible opn evs \<Longrightarrow>
   card (open_after opn evs) + disconnects evs = card opn + connects evs"
proof (induction opn evs rule: possible.induct)
  case (1 opn)
  then show ?case by simp
next
  case (2 opn sid evs)
  then show ?case by simp
next
  case (3 opn sid evs)
  then have "0 < card opn"
    by (auto simp: card_gt_0_iff)
  with 3 show ?case by simp
qed

lemma insert_or_replace_member: "l \<in> set (insert_or_replace l ls)"
proof (cases "findIndex (\<lambda>x. listing_id x = listing_id l) ls")
  case None
  then show ?thesis by (simp add: insert_or_replace_def)
next
  case (Some i)
  with findIndex_Some [OF Some] show ?thesis
    by (simp add: insert_or_replace_def set_update_memI)
qed
















lemma emit_update_known:
  "known_action (update_action u) \<Longrightarrow>
   emit_update ok u = Some (if ok then Sent (update_action u) (update_data u)
                            else Failed (update_action u) (update_data u))"
  by (auto simp: emit_update_def known_action_def)

lemma process_loop_trace:
  "\<forall>e\<in>set es. known_action (update_action (snd e)) \<Longrightarrow>
   snd (process_loop oks n es c) = one_attempt_each oks n (map snd es)"
proof (induction es arbitrary: n c)
  case Nil
  then show ?case by simp
next
  case (Cons e es)
  then have k: "known_action (update_action (snd e))"
    and rest: "\<forall>e\<in>set es. known_action (update_action (snd e))"
    by simp_all
  show ?case
    using Cons.IH [OF rest] by (simp add: emit_update_known [OF k] split_beta Let_def)
qed

lemma findIndex_append_right:
  "\<forall>x\<in>set xs. \<not> p x \<Longrightarrow> p y \<Longrightarrow> findIndex p (xs @ y # ys) = Some (length xs)"
  by (induction xs) simp_all

lemma splice_at_middle: "splice_at (Some (length pre)) (pre @ e # es) = pre @ es"
  by (simp add: splice_at_def)

lemma process_loop_queue:
  assumes "distinct (map fst (pre @ es))" and "updateQueue c = pre @ es"
    and "\<forall>e\<in>set es. known_action (update_action (snd e))"
  shows "fst (process_loop oks n es c) = c\<lparr>updateQueue := pre @ undelivered oks n es\<rparr>"
  using assms
proof (induction es arbitrary: n c pre)
  case Nil
  then show ?case by simp
next
  case (Cons e es)
  have k: "known_action (update_action (snd e))"
    and rest: "\<forall>e\<in>set es. known_action (update_action (snd e))"
    using Cons.prems(3) by simp_all
  have "fst e \<notin> fst ` set pre"
    using Cons.prems(1) by simp
  then have "\<forall>x\<in>set pre. \<not> fst x = fst e"
    by (metis imageI)
  then have idx: "findIndex (\<lambda>x. fst x = fst e) (updateQueue c) = Some (length pre)"
    using Cons.prems(2) by (simp add: findIndex_append_right)
  show ?case
  proof (cases "oks n")
    case True
    let ?c1 = "c\<lparr>updateQueue := pre @ es\<rparr>"
    have "distinct (map fst (pre @ es))"
      using Cons.prems(1) by simp
    from Cons.IH [OF this _ rest, of ?c1 "Suc n"]
    have "fst (process_loop oks (Suc n) es ?c1) = ?c1\<lparr>updateQueue := pre @ undelivered oks (Suc n) es\<rparr>"
      by simp
    then show ?thesis
      using True idx Cons.prems(2)
      by (simp add: emit_update_known [OF k] split_beta splice_at_middle)
  next
    case False
    have "distinct (map fst ((pre @ [e]) @ es))"
      using Cons.prems(1) by simp
    moreover have "updateQueue c = (pre @ [e]) @ es"
      using Cons.prems(2) by simp
    ultimately have "fst (process_loop oks (Suc n) es c)
        = c\<lparr>updateQueue := (pre @ [e]) @ undelivered oks (Suc n) es\<rparr>"
      using rest by (rule Cons.IH)
    then show ?thesis
      using False by (simp add: emit_update_known [OF k] split_beta)
  qed
qed

lemma one_attempt_each_length: "length (one_attempt_each oks n us) = length us"
  by (induction us arbitrary: n) simp_all

lemma undelivered_map: "undelivered oks n (map f xs) = map f (undelivered oks n xs)"
  by (induction xs arbitrary: n) simp_all

lemma queueUpdate_queue:
  "map snd (updateQueue (queueUpdate uid ts act dat c))
     = map snd (updateQueue c) @ [intent_update (uid, ts, act, dat)]"
  by (simp add: queueUpdate_def saveUpdateQueue_def intent_update_def Let_def)

lemma queueUpdate_stored:
  "stored_updates (queueUpdate uid ts act dat c)
     = map snd (updateQueue (queueUpdate uid ts act dat c))"
  by (simp add: queueUpdate_def saveUpdateQueue_def stored_updates_def Let_def)

lemma enqueue_all_queue:
  "map snd (updateQueue (enqueue_all intents c))
     = map snd (updateQueue c) @ map intent_update intents"
proof (induction intents arbitrary: c)
  case Nil
  then show ?case by simp
next
  case (Cons i intents)
  obtain uid ts act dat where i: "i = (uid, ts, act, dat)"
    by (cases i) auto
  show ?case
    using Cons.IH [of "queueUpdate uid ts act dat c"]
    by (simp add: i queueUpdate_queue)
qed

lemma enqueue_all_stored:
  "stored_updates c = map snd (updateQueue c) \<Longrightarrow>
   stored_updates (enqueue_all intents c) = map snd (updateQueue (enqueue_all intents c))"
proof (induction intents arbitrary: c)
  case Nil
  then show ?case by simp
next
  case (Cons i intents)
  obtain uid ts act dat where i: "i = (uid, ts, act, dat)"
    by (cases i) auto
  show ?case
    using Cons.IH [OF queueUpdate_stored, of uid ts act dat c]
    by (simp add: i)
qed

lemma page_load_queue:
  "updateQueue (page_load defaults c) = zip [0 ..< length (stored_updates c)] (stored_updates c)"
  by (simp add: page_load_def loadUpdateQueue_def stored_updates_def split: option.splits)

lemma page_load_flags:
  "\<not> isSyncing (page_load defaults c)"
  "stored_updates (page_load defaults c) = stored_updates c"
  by (simp_all add: page_load_def loadUpdateQueue_def stored_updates_def split: option.splits)

lemma processUpdateQueue_result:
  assumes "isConnected c" and "\<not> isSyncing c" and "distinct (map fst (updateQueue c))"
    and "\<forall>e\<in>set (updateQueue c). known_action (update_action (snd e))"
    and "stored_updates c = map snd (updateQueue c)"
  shows "map snd (updateQueue (fst (processUpdateQueue oks c)))
           = undelivered oks 0 (map snd (updateQueue c))"
    and "stored_updates (fst (processUpdateQueue oks c))
           = undelivered oks 0 (map snd (updateQueue c))"
    and "snd (processUpdateQueue oks c) = one_attempt_each oks 0 (map snd (updateQueue c))"
proof -
  let ?c1 = "c\<lparr>isSyncing := True\<rparr>"
  have q: "fst (process_loop oks 0 (updateQueue c) ?c1)
             = ?c1\<lparr>updateQueue := [] @ undelivered oks 0 (updateQueue c)\<rparr>"
    using assms(3,4) by (intro process_loop_queue) simp_all
  have t: "snd (process_loop oks 0 (updateQueue c) ?c1)
             = one_attempt_each oks 0 (map snd (updateQueue c))"
    using assms(4) by (rule process_loop_trace)
  show "map snd (updateQueue (fst (processUpdateQueue oks c)))
           = undelivered oks 0 (map snd (updateQueue c))"
    using assms(1,2) q
    by (simp add: processUpdateQueue_def split_beta Let_def saveUpdateQueue_def undelivered_map)
  show "stored_updates (fst (processUpdateQueue oks c))
           = undelivered oks 0 (map snd (updateQueue c))"
    using assms(1,2,5) q
    by (simp add: processUpdateQueue_def split_beta Let_def saveUpdateQueue_def undelivered_map
        stored_updates_def)
  show "snd (processUpdateQueue oks c) = one_attempt_each oks 0 (map snd (updateQueue c))"
    using assms(1,2) t
    by (simp add: processUpdateQueue_def split_beta Let_def)
qed

text \<open>
  When a backend write fails the broadcast still goes out, to all channels, and with the
  local file the listing is in the array.
\<close>

lemma failed_write_broadcast:
  "(\<exists>s1 fx. on_listing_updated False (Some l) s = Inr (s1, fx)
       \<and> last fx = Broadcast (UpdateListings
            \<lparr>action = ''updated'', listing = Some l, listingId = JUndefined\<rparr>)
       \<and> recipients s1 (last fx) = clients s
       \<and> (\<not> useCloudBackend s \<or> \<not> db s \<longrightarrow> l \<in> set (listings s1)))
   \<and> (\<exists>s1 fx. on_listing_added False (Some l) s = Inr (s1, fx)
       \<and> last fx = Broadcast (UpdateListings
            \<lparr>action = ''added'', listing = Some l, listingId = JUndefined\<rparr>)
       \<and> recipients s1 (last fx) = clients s
       \<and> (truthy (listing_id l) \<and> (\<not> useCloudBackend s \<or> \<not> db s) \<longrightarrow> l \<in> set (listings s1)))"
proof -
  have mode: "clients (fst (saveListing False l s)) = clients s"
    by (rule saveListing_mode)
  have loc: "\<not> useCloudBackend s \<or> \<not> db s \<Longrightarrow> l \<in> set (listings (fst (saveListing False l s)))"
    by (simp add: saveListing_listings insert_or_replace_member)
  show ?thesis
    using mode loc
    by (simp add: on_listing_updated_def on_listing_added_def split_beta)
qed

text \<open>
  At most one listing per id is kept by every operation on either replica: on the server
  by \<^verbatim>\<open>saveListing\<close>, \<^verbatim>\<open>deleteListing\<close>, every handler and every sequence of requests,
  on the client by the handlers of \<^verbatim>\<open>update-listings\<close> and \<^verbatim>\<open>sync-all-listings\<close>.
\<close>

lemma unique_ids_kept:
  assumes "unique_ids (listings s)" and "unique_ids (listings c)" and "unique_ids ls"
  shows "unique_ids (listings (fst (saveListing ok l s)))
       \<and> unique_ids (listings (fst (deleteListing ok x s)))
       \<and> unique_ids (listings (fst (on_sync_listings oks payload s)))
       \<and> unique_ids (listings (fst (server_step rq s)))
       \<and> unique_ids (listings (fst (server_run rqs s)))
       \<and> (client_on_update_listings data c = Inr c1 \<longrightarrow> unique_ids (listings c1))
       \<and> unique_ids (listings (client_on_sync_all_listings ls c))"
proof -
  have "unique_ids (listings (fst (deleteListing ok x s)))"
    using assms(1) by (simp add: deleteListing_listings unique_ids_filter)
  moreover have "unique_ids (listings (client_on_sync_all_listings ls c))"
    using assms(3) by (simp add: client_on_sync_all_listings_def)
  moreover have "unique_ids (listings (fst (on_sync_listings oks payload s)))"
    using unique_ids_server_step [OF assms(1), of "SyncListings oks payload"] by simp
  ultimately show ?thesis
    using unique_ids_saveListing [OF assms(1)] unique_ids_server_step [OF assms(1)]
      unique_ids_server_run [OF assms(1)] unique_ids_client_update_listings [OF assms(2)]
    by blast
qed

text \<open>
  A delete that reaches the array leaves no entry with the given id: always on the
  client, and on the server with the local file or when the cloud delete succeeds.
\<close>

lemma delete_removes_id:
  "(\<not> useCloudBackend s \<or> \<not> db s \<or> ok \<longrightarrow>
      x \<notin> listing_id ` set (listings (fst (deleteListing ok x s)))
      \<and> x \<notin> listing_id ` set (listings (fst (on_listing_deleted ok x s)))
      \<and> x \<notin> listing_id ` set (listings (fst (server_step (ListingDeleted ok x) s))))
   \<and> (\<exists>c1. client_on_update_listings \<lparr>action = ''deleted'', listing = lo, listingId = x\<rparr> c
              = Inr c1
          \<and> x \<notin> listing_id ` set (listings c1))"
proof -
  have "x \<notin> listing_id ` set (listings (fst (deleteListing ok x s)))"
    if "\<not> useCloudBackend s \<or> \<not> db s \<or> ok"
    using that by (auto simp: deleteListing_listings)
  then show ?thesis
    by (auto simp: on_listing_deleted_def split_beta client_on_update_listings_def)
qed

subsection \<open>The claims\<close>




text \<open>
  C2, as the code has it. On every \<^verbatim>\<open>connect\<close> event of a client that is not in the
  middle of a drain, the first emit is \<^verbatim>\<open>sync-listings\<close> with the whole local array,
  and the drain follows: one attempt for each queued update, in queue order. The
  \<^verbatim>\<open>reconnect\<close> handler drains without any \<^verbatim>\<open>sync-listings\<close>.
\<close>

theorem connect_syncs_then_drains:
  assumes "\<not> isSyncing c" and "\<forall>e\<in>set (updateQueue c). known_action (update_action (snd e))"
  shows "snd (client_on_connect oks c)
           = Sent ''sync-listings'' (ArgListings (listings c))
               # one_attempt_each oks 0 (map snd (updateQueue c))
       \<and> snd (client_on_reconnect oks c) = one_attempt_each oks 0 (map snd (updateQueue c))"
proof (cases "updateQueue c = []")
  case True
  then show ?thesis
    by (simp add: client_on_connect_def client_on_reconnect_def processUpdateQueue_def)
next
  case False
  then show ?thesis
    using assms process_loop_trace [of "updateQueue c" oks 0]
    by (simp add: client_on_connect_def client_on_reconnect_def processUpdateQueue_def
        split_beta Let_def)
qed

theorem connect_syncs_then_drains_witness:
  "\<not> isSyncing offline_client
   \<and> map (\<lambda>e. update_action (snd e)) (updateQueue offline_client) = [''listing-added'']
   \<and> known_action ''listing-added''
   \<and> snd (client_on_connect none_ok offline_client)
       = [Sent ''sync-listings'' (ArgListings [x1]), Failed ''listing-added'' (ArgListing x1)]"
  using connect_syncs_then_drains [of offline_client none_ok]
  by (simp add: offline_client_def fresh_client_def queueUpdate_def saveUpdateQueue_def
      known_action_def none_ok_def Let_def)

text \<open>
  C2 as stated fails: with one update queued, \<^verbatim>\<open>sync-listings\<close> is emitted before the
  queued update, not after the drain.
\<close>

theorem connect_emits_sync_first:
  "snd (client_on_connect all_ok offline_client)
     = [Sent ''sync-listings'' (ArgListings [x1]), Sent ''listing-added'' (ArgListing x1)]
   \<and> snd (client_on_connect all_ok offline_client)
     \<noteq> [Sent ''listing-added'' (ArgListing x1), Sent ''sync-listings'' (ArgListings [x1])]"
  by (simp add: client_on_connect_def processUpdateQueue_def offline_client_def fresh_client_def
      queueUpdate_def saveUpdateQueue_def emit_update_def splice_at_def all_ok_def Let_def)

text \<open>
  C3, at a failed cloud write. With the cloud backend, a \<^verbatim>\<open>listing-updated\<close> whose
  Firestore write is rejected ends in the \<^verbatim>\<open>catch\<close> of \<^verbatim>\<open>saveListing\<close>, before the
  lines that update the array: the listing is not in the authoritative array afterwards,
  and the \<^verbatim>\<open>update-listings\<close> broadcast goes out all the same.
\<close>

theorem failed_cloud_write_skips_replica:
  "on_listing_updated False (Some x1) (cloud_server []) =
     Inr (cloud_server [],
          [Persist (FirestoreSet x1) False,
           Broadcast (UpdateListings \<lparr>action = ''updated'', listing = Some x1, listingId = JUndefined\<rparr>)])
   \<and> x1 \<notin> set (listings (cloud_server []))"
  by (simp add: on_listing_updated_def saveListing_def cloud_server_def)

text \<open>
  C4. Take a client with an empty queue, enqueue \<open>N\<close> intents with the actions that the
  page uses, let the page crash and load again, and let it connect. Every intent was in
  \<^verbatim>\<open>localStorage\<close> once enqueued; the drain makes exactly one attempt for each of the
  \<open>N\<close> intents, in order; and the queue afterwards, in memory and in storage, holds
  exactly the intents whose emit threw.
\<close>

theorem queue_durability:
  assumes "updateQueue c = []" and "stored_updates c = []"
    and "\<forall>i\<in>set intents. known_action (fst (snd (snd i)))"
  shows "stored_updates (enqueue_all intents c) = map intent_update intents
       \<and> snd (client_on_connect oks (page_load defaults (enqueue_all intents c)))
           = Sent ''sync-listings'' (ArgListings (listings (page_load defaults (enqueue_all intents c))))
               # one_attempt_each oks 0 (map intent_update intents)
       \<and> length (one_attempt_each oks 0 (map intent_update intents)) = length intents
       \<and> map snd (updateQueue (fst (client_on_connect oks (page_load defaults (enqueue_all intents c)))))
           = undelivered oks 0 (map intent_update intents)
       \<and> stored_updates (fst (client_on_connect oks (page_load defaults (enqueue_all intents c))))
           = undelivered oks 0 (map intent_update intents)"
proof -
  let ?c1 = "enqueue_all intents c"
  let ?c2 = "page_load defaults ?c1"
  let ?c3 = "?c2\<lparr>isConnected := True\<rparr>"
  let ?us = "map intent_update intents"
  have stored: "stored_updates ?c1 = ?us"
    using enqueue_all_stored [of c intents] enqueue_all_queue [of intents c] assms(1,2)
    by simp
  have queue: "updateQueue ?c3 = zip [0 ..< length ?us] ?us"
    using stored by (simp add: page_load_queue)
  then have vals: "map snd (updateQueue ?c3) = ?us"
    by simp
  have refs: "distinct (map fst (updateQueue ?c3))"
    using queue by simp
  have known: "\<forall>e\<in>set (updateQueue ?c3). known_action (update_action (snd e))"
  proof
    fix e assume "e \<in> set (updateQueue ?c3)"
    then have "snd e \<in> set ?us"
      using vals by (metis imageI set_map)
    then show "known_action (update_action (snd e))"
      using assms(3) by (auto simp: intent_update_def)
  qed
  have "stored_updates ?c3 = stored_updates ?c2"
    by (simp add: stored_updates_def)
  then have st: "stored_updates ?c3 = map snd (updateQueue ?c3)"
    using stored vals by (simp add: page_load_flags)
  have flags: "isConnected ?c3" "\<not> isSyncing ?c3"
    by (simp_all add: page_load_flags)
  note r = processUpdateQueue_result [OF flags refs known st, of oks]
  show ?thesis
    using stored r vals
    by (simp add: client_on_connect_def split_beta Let_def one_attempt_each_length)
qed

theorem queue_durability_witness:
  "updateQueue (fresh_client [x1]) = [] \<and> stored_updates (fresh_client [x1]) = []
   \<and> known_action ''listing-added'' \<and> known_action ''listing-deleted''
   \<and> snd (client_on_connect all_ok (page_load [x1]
        (enqueue_all [(1, ''t1'', ''listing-added'', ArgListing x2),
                      (2, ''t2'', ''listing-deleted'', ArgId (JStr ''x1''))]
           (fresh_client [x1]))))
       = [Sent ''sync-listings'' (ArgListings [x1]),
          Sent ''listing-added'' (ArgListing x2),
          Sent ''listing-deleted'' (ArgId (JStr ''x1''))]
   \<and> updateQueue (fst (client_on_connect all_ok (page_load [x1]
        (enqueue_all [(1, ''t1'', ''listing-added'', ArgListing x2),
                      (2, ''t2'', ''listing-deleted'', ArgId (JStr ''x1''))]
           (fresh_client [x1]))))) = []"
  using queue_durability [of "fresh_client [x1]"
      "[(1, ''t1'', ''listing-added'', ArgListing x2),
        (2, ''t2'', ''listing-deleted'', ArgId (JStr ''x1''))]" all_ok "[x1]"]
  by (simp add: fresh_client_def stored_updates_def known_action_def all_ok_def intent_update_def
      page_load_def loadUpdateQueue_def queueUpdate_def saveUpdateQueue_def Let_def)

text \<open>
  C5. When the id of listing \<open>l\<close> already occurs in the client's replica, handling
  \<^verbatim>\<open>update-listings\<close> with action \<^verbatim>\<open>added\<close> and listing \<open>l\<close> leaves the client as it
  is; and from any replica, handling the same \<^verbatim>\<open>added\<close> event a second time changes
  nothing more.
\<close>

theorem added_event_idempotent:
  assumes "action data = ''added''" and "listing data = Some l"
  shows "(listing_id l \<in> listing_id ` set (listings c) \<longrightarrow>
            client_on_update_listings data c = Inr c)
       \<and> (\<exists>c1. client_on_update_listings data c = Inr c1
               \<and> client_on_update_listings data c1 = Inr c1)"
  using assms
  by (auto simp: client_on_update_listings_def find_None_iff' split: if_splits)

theorem added_event_idempotent_witness:
  "action \<lparr>action = ''added'', listing = Some (x1\<lparr>other_fields := ''Newer''\<rparr>),
           listingId = JUndefined\<rparr> = ''added''
   \<and> listing_id (x1\<lparr>other_fields := ''Newer''\<rparr>) \<in> listing_id ` set (listings (fresh_client [x1]))
   \<and> client_on_update_listings
        \<lparr>action = ''added'', listing = Some (x1\<lparr>other_fields := ''Newer''\<rparr>),
         listingId = JUndefined\<rparr> (fresh_client [x1]) = Inr (fresh_client [x1])"
  using added_event_idempotent
    [of "\<lparr>action = ''added'', listing = Some (x1\<lparr>other_fields := ''Newer''\<rparr>),
          listingId = JUndefined\<rparr>" "x1\<lparr>other_fields := ''Newer''\<rparr>" "fresh_client [x1]"]
  by (simp add: fresh_client_def x1_def)

text \<open>
  C6, at a failed cloud delete. With the cloud backend, a \<^verbatim>\<open>listing-deleted\<close> whose
  Firestore delete is rejected ends in the \<^verbatim>\<open>catch\<close> of \<^verbatim>\<open>deleteListing\<close>, before the
  \<^verbatim>\<open>filter\<close>: the entry with the given id stays in the authoritative array, while the
  broadcast makes every client remove it.
\<close>

theorem failed_cloud_delete_keeps_entry:
  "on_listing_deleted False (JStr ''x1'') (cloud_server [x1]) =
     (cloud_server [x1],
      [Persist (FirestoreDelete (JStr ''x1'')) False,
       Broadcast (UpdateListings \<lparr>action = ''deleted'', listing = None, listingId = JStr ''x1''\<rparr>)])
   \<and> JStr ''x1'' \<in> listing_id ` set (listings (cloud_server [x1]))
   \<and> client_receive
        (UpdateListings \<lparr>action = ''deleted'', listing = None, listingId = JStr ''x1''\<rparr>)
        (fresh_client [x1]) = Inr (fresh_client [])"
  by (simp add: on_listing_deleted_def deleteListing_def cloud_server_def
      client_on_update_listings_def fresh_client_def x1_def)

text \<open>
  C7. Deleting an id that the replica does not hold leaves the replica as it is: on the
  server in \<^verbatim>\<open>deleteListing\<close> and in the handler of \<^verbatim>\<open>listing-deleted\<close>, whatever the
  backend and the outcome of its call; on the client in the handler of
  \<^verbatim>\<open>update-listings\<close> with action \<^verbatim>\<open>deleted\<close>.
\<close>

theorem delete_absent_noop:
  assumes "x \<notin> listing_id ` set (listings s)" and "y \<notin> listing_id ` set (listings c)"
  shows "listings (fst (deleteListing ok x s)) = listings s
       \<and> listings (fst (on_listing_deleted ok x s)) = listings s
       \<and> client_on_update_listings \<lparr>action = ''deleted'', listing = None, listingId = y\<rparr> c = Inr c"
  using assms
  by (simp add: deleteListing_listings on_listing_deleted_def split_beta filter_absent
      client_on_update_listings_def)

theorem delete_absent_noop_witness:
  "JStr ''x2'' \<notin> listing_id ` set (listings (local_server [x1]))
   \<and> JStr ''x2'' \<notin> listing_id ` set (listings (fresh_client [x1]))
   \<and> listings (fst (on_listing_deleted True (JStr ''x2'') (local_server [x1]))) = [x1]
   \<and> client_on_update_listings
        \<lparr>action = ''deleted'', listing = None, listingId = JStr ''x2''\<rparr> (fresh_client [x1])
       = Inr (fresh_client [x1])"
  using delete_absent_noop
    [of "JStr ''x2''" "local_server [x1]" "JStr ''x2''" "fresh_client [x1]" True]
  by (simp add: local_server_def fresh_client_def x1_def)

text \<open>
  C8. Starting with no channel, after any non-empty sequence of connections and
  disconnections that can happen, the last \<^verbatim>\<open>users-count\<close> value broadcast is the
  number of channels open, which is the number of connections less the number of
  disconnections.
\<close>

theorem presence_accuracy:
  assumes "clients s = {}" and "possible {} evs" and "evs \<noteq> []"
  shows "last (users_counts (snd (server_run (map presence_request evs) s)))
           = card (open_after {} evs)
       \<and> card (open_after {} evs) + disconnects evs = connects evs"
  using presence_run_last [OF assms(3), of s] presence_run_clients [of evs s]
    possible_card [OF _ assms(2)] assms(1)
  by simp

theorem presence_accuracy_witness:
  "clients (local_server []) = {}
   \<and> possible {} [Connects ''a'', Connects ''b'', Disconnects ''a'']
   \<and> last (users_counts (snd (server_run
        (map presence_request [Connects ''a'', Connects ''b'', Disconnects ''a''])
        (local_server [])))) = 1"
  using presence_accuracy [of "local_server []" "[Connects ''a'', Connects ''b'', Disconnects ''a'']"]
  by (simp add: local_server_def)

text \<open>
  C9, at the payload \<^verbatim>\<open>null\<close>: the handler of \<^verbatim>\<open>listing-added\<close> throws in its first
  statement, which reads \<^verbatim>\<open>listing.title\<close>, so it broadcasts nothing.
\<close>

theorem listing_added_null_throws:
  "on_listing_added ok None s = Inl TypeError
   \<and> server_step (ListingAdded ok None) s = (s, [])"
  by (simp add: on_listing_added_def)

text \<open>
  C10. On a new connection the server sends \<^verbatim>\<open>sync-all-listings\<close> with the whole
  authoritative array exactly once, to the new channel only, within the connection
  handler itself (so before any message of that client is handled); a client that
  handles this event holds the authoritative array without having asked for it.
\<close>

theorem connection_pushes_replica:
  "filter is_sync_all (snd (on_connection sid s))
     = [Unicast sid (SyncAllListings (listings s))]
   \<and> recipients (fst (on_connection sid s)) (Unicast sid (SyncAllListings (listings s))) = {sid}
   \<and> client_receive (SyncAllListings (listings s)) c = Inr (c\<lparr>listings := listings s\<rparr>)"
  by (simp add: on_connection_def Let_def client_on_sync_all_listings_def)

end
